theory Spec2Isabelle
  imports Main "HOL-Library.Sublist"
begin

section \<open>Python string primitives\<close>

text \<open>
  Text is modelled as \<^typ>\<open>string\<close>. The character classes below are Python's on the
  ASCII repertoire: \<open>str.isspace\<close> and the regular expression class \<open>\s\<close> agree there
  (tab, line feed, vertical tab, form feed, carriage return, the four separators
  0x1C..0x1F and the blank), \<open>\d\<close> is \<open>0-9\<close>, \<open>\w\<close> is \<open>[A-Za-z0-9_]\<close>, and
  \<open>str.upper\<close> / case-insensitive matching map \<open>a-z\<close> to \<open>A-Z\<close>. Python's classes are
  larger on other characters (Unicode white space, digits, letters and case pairs), which
  the definitions below do not cover: a statement that depends on a class is made for
  ASCII text, \<open>ascii_text\<close>, where the definitions are Python's.
\<close>

definition ascii_text :: "string \<Rightarrow> bool" where
  "ascii_text s = list_all (\<lambda>c. \<not> digit7 c) s"

definition isspace :: "char \<Rightarrow> bool" where
  "isspace c = (c \<in> set [CHR 0x09, CHR 0x0A, CHR 0x0B, CHR 0x0C, CHR 0x0D,
                           CHR 0x1C, CHR 0x1D, CHR 0x1E, CHR 0x1F, CHR 0x20])"

definition isdigit :: "char \<Rightarrow> bool" where
  "isdigit c = (c \<in> set ''0123456789'')"

definition lowercase_letters :: string where
  "lowercase_letters = ''abcdefghijklmnopqrstuvwxyz''"

definition uppercase_letters :: string where
  "uppercase_letters = ''ABCDEFGHIJKLMNOPQRSTUVWXYZ''"

definition isword :: "char \<Rightarrow> bool" where
  "isword c = (c \<in> set lowercase_letters \<or> c \<in> set uppercase_letters \<or> isdigit c \<or> c = CHR ''_'')"

definition not_newline :: "char \<Rightarrow> bool" where
  "not_newline c = (c \<noteq> CHR 0x0A)"

definition any_char :: "char \<Rightarrow> bool" where
  "any_char c = True"

definition upper_char :: "char \<Rightarrow> char" where
  "upper_char c = (case map_of (zip lowercase_letters uppercase_letters) c of
                     Some u \<Rightarrow> u | None \<Rightarrow> c)"

definition lower_char :: "char \<Rightarrow> char" where
  "lower_char c = (case map_of (zip uppercase_letters lowercase_letters) c of
                     Some l \<Rightarrow> l | None \<Rightarrow> c)"

definition upper :: "string \<Rightarrow> string" where
  "upper s = map upper_char s"

definition lstrip :: "string \<Rightarrow> string" where
  "lstrip s = dropWhile isspace s"

definition rstrip :: "string \<Rightarrow> string" where
  "rstrip s = rev (dropWhile isspace (rev s))"

definition strip :: "string \<Rightarrow> string" where
  "strip s = rstrip (lstrip s)"

definition rstrip_char :: "char \<Rightarrow> string \<Rightarrow> string" where
  "rstrip_char x s = rev (dropWhile (\<lambda>c. c = x) (rev s))"

text \<open>\<open>sep.join(parts)\<close>.\<close>

fun join :: "string \<Rightarrow> string list \<Rightarrow> string" where
  "join sep [] = []"
| "join sep [p] = p"
| "join sep (p # q # ps) = p @ sep @ join sep (q # ps)"

text \<open>
  \<open>s.split('---')\<close>: the pieces between the non-overlapping occurrences of the
  delimiter, scanned from the left; the result is never empty.
\<close>

definition delimiter :: string where
  "delimiter = ''---''"

fun split_delimiter :: "string \<Rightarrow> string list" where
  "split_delimiter [] = [[]]"
| "split_delimiter (c # cs) =
     (if prefix delimiter (c # cs) then [] # split_delimiter (drop 2 cs)
      else (let r = split_delimiter cs in (c # hd r) # tl r))"

text \<open>
  \<open>s.replace(old, new)\<close>: every non-overlapping occurrence of \<open>old\<close>, scanned from the
  left, is replaced. The counter is the number of characters of the current occurrence
  still to be skipped. (With an empty \<open>old\<close> Python inserts \<open>new\<close> around every
  character.)
\<close>

fun replace_scan :: "string \<Rightarrow> string \<Rightarrow> nat \<Rightarrow> string \<Rightarrow> string" where
  "replace_scan old new k [] = []"
| "replace_scan old new (Suc k) (c # cs) = replace_scan old new k cs"
| "replace_scan old new 0 (c # cs) =
     (if prefix old (c # cs) then new @ replace_scan old new (length old - 1) cs
      else c # replace_scan old new 0 cs)"

definition replace :: "string \<Rightarrow> string \<Rightarrow> string \<Rightarrow> string" where
  "replace old new s =
     (if old = [] then new @ concat (map (\<lambda>c. c # new) s) else replace_scan old new 0 s)"

text \<open>
  \<open>int(g)\<close> for a run of decimal digits, and \<open>str(i)\<close> as an f-string prints it.
  \<open>int\<close> raises \<open>ValueError\<close> on a run of more than \<open>max_str_digits\<close> digits (the
  interpreter's default limit); \<open>int_of_digits\<close> is its value on the runs within the
  limit, and the statements about the days assume \<open>day_digits_bounded\<close> (below) of every
  section.
\<close>

definition max_str_digits :: nat where
  "max_str_digits = 4300"

definition digit_value :: "char \<Rightarrow> int" where
  "digit_value c = int (length (takeWhile (\<lambda>d. d \<noteq> c) ''0123456789''))"

definition int_of_digits :: "string \<Rightarrow> int" where
  "int_of_digits g = foldl (\<lambda>a c. 10 * a + digit_value c) 0 g"

fun str_nat :: "nat \<Rightarrow> string" where
  "str_nat n = (if n < 10 then [''0123456789'' ! n]
                else str_nat (n div 10) @ [''0123456789'' ! (n mod 10)])"

declare str_nat.simps [simp del]

definition str_int :: "int \<Rightarrow> string" where
  "str_int i = (if i < 0 then CHR ''-'' # str_nat (nat (- i)) else str_nat (nat i))"

section \<open>The labelled-field searches of the response parser\<close>

text \<open>
  Every pattern of \<open>parse_claude_response\<close> has the shape \<open>LABEL:\s*(C+)\<close> with a
  character class \<open>C\<close>, searched with \<open>re.IGNORECASE\<close>. \<open>re.search\<close> returns the
  leftmost match; at a position the label is compared without case, the greedy \<open>\s*\<close>
  first takes one more white-space character and gives it back when the rest of the
  pattern fails there, and the greedy group takes the longest run of the class.
\<close>

definition ci_prefix :: "string \<Rightarrow> string \<Rightarrow> bool" where
  "ci_prefix lab s = (map lower_char (take (length lab) s) = map lower_char lab)"

definition group_here :: "(char \<Rightarrow> bool) \<Rightarrow> string \<Rightarrow> string option" where
  "group_here cls s = (let g = takeWhile cls s in if g = [] then None else Some g)"

fun spaces_then_group :: "(char \<Rightarrow> bool) \<Rightarrow> string \<Rightarrow> string option" where
  "spaces_then_group cls [] = None"
| "spaces_then_group cls (c # cs) =
     (if isspace c then
        (case spaces_then_group cls cs of
           Some g \<Rightarrow> Some g
         | None \<Rightarrow> group_here cls (c # cs))
      else group_here cls (c # cs))"

definition match_field_here :: "string \<Rightarrow> (char \<Rightarrow> bool) \<Rightarrow> string \<Rightarrow> string option" where
  "match_field_here lab cls s =
     (if ci_prefix lab s then spaces_then_group cls (drop (length lab) s) else None)"

fun re_search_field :: "string \<Rightarrow> (char \<Rightarrow> bool) \<Rightarrow> string \<Rightarrow> string option" where
  "re_search_field lab cls [] = match_field_here lab cls []"
| "re_search_field lab cls (c # cs) =
     (case match_field_here lab cls (c # cs) of
        Some g \<Rightarrow> Some g
      | None \<Rightarrow> re_search_field lab cls cs)"

section \<open>Resources and the response parser (generate\_content.py)\<close>

record resource =
  day :: int
  category :: string
  title :: string
  hook :: string
  description :: string
  key_points :: "string list"
  password :: string
  full_content :: string

definition line_field :: "string \<Rightarrow> string \<Rightarrow> string \<Rightarrow> string" where
  "line_field lab dflt section =
     (case re_search_field lab not_newline section of
        Some g \<Rightarrow> strip g
      | None \<Rightarrow> dflt)"

definition extract_key_points :: "string \<Rightarrow> string list" where
  "extract_key_points section =
     concat (map (\<lambda>i. case re_search_field (''KEY_POINT_'' @ str_nat i @ '':'') not_newline section of
                         Some g \<Rightarrow> [strip g]
                       | None \<Rightarrow> [])
                 [1, 2, 3])"

definition extract_password :: "string \<Rightarrow> string" where
  "extract_password section =
     (case re_search_field ''PASSWORD:'' isword section of
        Some g \<Rightarrow> upper g
      | None \<Rightarrow> ''ACCESS'')"

definition content_sentinel :: string where
  "content_sentinel = ''Content not found.''"

definition extract_full_content :: "string \<Rightarrow> string" where
  "extract_full_content section =
     (case re_search_field ''FULL_CONTENT:'' any_char section of
        Some g \<Rightarrow> strip (hd (split_delimiter (strip g)))
      | None \<Rightarrow> content_sentinel)"

text \<open>
  The fields of one section that do not depend on the day counter, and the day: the
  explicit \<open>DAY\<close> number when the section has one, the counter otherwise.
\<close>

definition explicit_day :: "string \<Rightarrow> int option" where
  "explicit_day section = map_option int_of_digits (re_search_field ''DAY:'' isdigit section)"

definition day_digits_bounded :: "string \<Rightarrow> bool" where
  "day_digits_bounded section =
     (case re_search_field ''DAY:'' isdigit section of
        None \<Rightarrow> True
      | Some g \<Rightarrow> length g \<le> max_str_digits)"

definition build_resource :: "int \<Rightarrow> string \<Rightarrow> resource" where
  "build_resource d section =
     \<lparr> day = d,
       category = line_field ''CATEGORY:'' ''Career'' section,
       title = line_field ''TITLE:'' ''Untitled'' section,
       hook = line_field ''HOOK:'' [] section,
       description = line_field ''DESCRIPTION:'' [] section,
       key_points = extract_key_points section,
       password = extract_password section,
       full_content = extract_full_content section \<rparr>"

text \<open>
  One turn of the loop over the sections, on the state \<open>(resources, day_counter)\<close>: a
  blank section is skipped; the record is appended when its title and its full content
  are both truthy, that is, non-empty.
\<close>

definition parse_section :: "resource list \<times> int \<Rightarrow> string \<Rightarrow> resource list \<times> int" where
  "parse_section st section =
     (let (resources, day_counter) = st in
      if strip section = [] then (resources, day_counter)
      else
        let (d, day_counter') =
              (case explicit_day section of
                 Some n \<Rightarrow> (n, day_counter)
               | None \<Rightarrow> (day_counter, day_counter + 1));
            r = build_resource d section
        in if title r \<noteq> [] \<and> full_content r \<noteq> []
           then (resources @ [r], day_counter')
           else (resources, day_counter'))"

definition parse_claude_response :: "string \<Rightarrow> int \<Rightarrow> resource list" where
  "parse_claude_response content start_day =
     fst (foldl parse_section ([], start_day) (split_delimiter content))"



section \<open>The dashboard merger (update\_dashboard.py)\<close>

definition gradients :: "string list" where
  "gradients =
     [''linear-gradient(135deg, #ff006e, #8338ec)'',
      ''linear-gradient(135deg, #8338ec, #00f2ea)'',
      ''linear-gradient(135deg, #00f2ea, #3a86ff)'',
      ''linear-gradient(135deg, #3a86ff, #ff006e)'',
      ''linear-gradient(135deg, #ff006e, #fb5607)'',
      ''linear-gradient(135deg, #fb5607, #ffbe0b)'',
      ''linear-gradient(135deg, #ffbe0b, #00f2ea)'',
      ''linear-gradient(135deg, #00f2ea, #8338ec)'',
      ''linear-gradient(135deg, #8338ec, #ff006e)'',
      ''linear-gradient(135deg, #ff006e, #3a86ff)'']"

text \<open>
  Python's \<open>%\<close> with a positive modulus is the floor modulus, as \<open>mod\<close> on \<^typ>\<open>int\<close>,
  so the index is never negative.
\<close>

definition card_gradient :: "resource \<Rightarrow> string" where
  "card_gradient r = gradients ! nat ((day r - 1) mod int (length gradients))"

definition key_points_html :: "resource \<Rightarrow> string" where
  "key_points_html r =
     concat (map (\<lambda>point. ''                <li>'' @ point @ ''</li>\<newline>'') (key_points r))"

text \<open>The bullet and the padlock of the template, as their UTF-8 bytes.\<close>

definition bullet :: string where
  "bullet = [CHR 0xE2, CHR 0x80, CHR 0xA2]"

definition padlock :: string where
  "padlock = [CHR 0xF0, CHR 0x9F, CHR 0x94, CHR 0x92]"

definition dq :: string where
  "dq = [CHR 0x22]"

definition sq :: string where
  "sq = [CHR 0x27]"

definition create_card_html :: "resource \<Rightarrow> string" where
  "create_card_html r =
     (let d = str_int (day r); gradient = card_gradient r in
      concat
       [''\<newline>'',
        ''                <!-- Day '', d, '' -->\<newline>'',
        ''                <div class='', dq, ''day-card'', dq, ''>\<newline>'',
        ''                    <div class='', dq, ''day-card-image'', dq, '' style='', dq,
            ''background: '', gradient, '';'', dq, ''>\<newline>'',
        ''                        <div class='', dq, ''day-number-overlay'', dq, ''>Day '', d,
            ''</div>\<newline>'',
        ''                    </div>\<newline>'',
        ''                    <div class='', dq, ''day-card-content'', dq, ''>\<newline>'',
        ''                        <span class='', dq, ''day-badge'', dq, ''>Day '', d, '' '',
            bullet, '' '', category r, ''</span>\<newline>'',
        ''                        <h3 class='', dq, ''day-title'', dq, ''>'', title r,
            ''</h3>\<newline>'',
        ''                        <p class='', dq, ''day-description'', dq, ''>'', hook r,
            ''</p>\<newline>'',
        ''                        <ul class='', dq, ''day-points'', dq, ''>\<newline>'',
        key_points_html r, ''                        </ul>\<newline>'',
        ''                        <button class='', dq, ''download-btn locked-btn'', dq,
            '' onclick='', dq, ''showPasswordModal('', sq, ''day'', d, sq, '', '', sq, title r, sq,
            '')'', dq, ''>\<newline>'',
        ''                            '', padlock, '' Unlock Day '', d, '' PDF\<newline>'',
        ''                        </button>\<newline>'',
        ''                    </div>\<newline>'',
        ''                </div>\<newline>''])"

text \<open>
  The two pattern searches of the merger, \<open>const NAME = \{([^}]+)\};\<close>. The group is a
  run of characters other than the closing brace, and the brace must follow it: only
  the longest run can be followed by a brace, so no shorter run is tried. The result
  is group 1 of the leftmost match.
\<close>

definition object_open :: "string \<Rightarrow> string" where
  "object_open name = ''const '' @ name @ '' = {''"

definition not_brace :: "char \<Rightarrow> bool" where
  "not_brace c = (c \<noteq> CHR ''}'')"

definition match_object_here :: "string \<Rightarrow> string \<Rightarrow> string option" where
  "match_object_here name s =
     (if prefix (object_open name) s then
        (let rest = drop (length (object_open name)) s;
             body = takeWhile not_brace rest
         in if body \<noteq> [] \<and> prefix ''};'' (drop (length body) rest) then Some body else None)
      else None)"

fun re_search_object :: "string \<Rightarrow> string \<Rightarrow> string option" where
  "re_search_object name [] = match_object_here name []"
| "re_search_object name (c # cs) =
     (case match_object_here name (c # cs) of
        Some body \<Rightarrow> Some body
      | None \<Rightarrow> re_search_object name cs)"

text \<open>
  The two f-strings of the replacement: the text of the literal as it was found,
  \<open>const NAME = {BODY}\<close>, and the text that takes its place.
\<close>

definition old_literal :: "string \<Rightarrow> string \<Rightarrow> string" where
  "old_literal name current = object_open name @ current @ ''}''"

definition new_literal :: "string \<Rightarrow> string \<Rightarrow> string" where
  "new_literal name updated = object_open name @ ''\<newline>'' @ updated @ ''\<newline>        }''"

definition password_entry :: "resource \<Rightarrow> string" where
  "password_entry r = ''            day'' @ str_int (day r) @ '': '' @ sq @ password r @ sq"

definition updated_table :: "string \<Rightarrow> string list \<Rightarrow> string" where
  "updated_table current entries =
     rstrip_char (CHR '','') (rstrip current) @ '',\<newline>'' @ join '',\<newline>'' entries"

definition update_passwords_js :: "string \<Rightarrow> resource list \<Rightarrow> string" where
  "update_passwords_js html_content resources =
     (case re_search_object ''passwords'' html_content of
        None \<Rightarrow> html_content
      | Some current_passwords \<Rightarrow>
          (let new_password_entries = map password_entry resources;
               updated_passwords = updated_table current_passwords new_password_entries
           in replace (old_literal ''passwords'' current_passwords)
                      (new_literal ''passwords'' updated_passwords)
                      html_content))"

definition pdf_filename :: "resource \<Rightarrow> string" where
  "pdf_filename r =
     ''Day_'' @ str_int (day r) @ ''_'' @ replace ''/'' ''_'' (replace '' '' ''_'' (title r)) @ ''.pdf''"

definition pdf_entry :: "resource \<Rightarrow> string" where
  "pdf_entry r = ''            day'' @ str_int (day r) @ '': '' @ sq @ pdf_filename r @ sq"

definition update_pdf_paths_js :: "string \<Rightarrow> resource list \<Rightarrow> string" where
  "update_pdf_paths_js html_content resources =
     (case re_search_object ''pdfFiles'' html_content of
        None \<Rightarrow> html_content
      | Some current_pdfs \<Rightarrow>
          (let new_pdf_entries = map pdf_entry resources;
               updated_pdfs = updated_table current_pdfs new_pdf_entries
           in replace (old_literal ''pdfFiles'' current_pdfs)
                      (new_literal ''pdfFiles'' updated_pdfs)
                      html_content))"

text \<open>
  \<open>update_dashboard\<close> works on two files. The file system is a map from names to
  contents. The HTML tree comes from the BeautifulSoup library and the resource list
  from the json library: both are parameters. A missing file is caught and makes the
  function return \<open>False\<close>; an error of the json library is not caught. Messages
  printed to the standard output are left out.
\<close>

type_synonym files = "string \<rightharpoonup> string"

datatype exn = JSONDecodeError | KeyError

datatype outcome = Returned bool | Raised exn

record 'soup html_library =
  BeautifulSoup :: "string \<Rightarrow> 'soup"
  find_days_grid :: "'soup \<Rightarrow> bool"
  append_to_days_grid :: "'soup \<Rightarrow> 'soup \<Rightarrow> 'soup"
  soup_str :: "'soup \<Rightarrow> string"
  soup_prettify :: "'soup \<Rightarrow> string"

definition update_dashboard ::
  "'soup html_library \<Rightarrow> (string \<Rightarrow> exn + resource list) \<Rightarrow> files \<Rightarrow> outcome \<times> files" where
  "update_dashboard lib load_resources fs =
     (case fs ''new_content.json'' of
        None \<Rightarrow> (Returned False, fs)
      | Some json_text \<Rightarrow>
          (case load_resources json_text of
             Inl e \<Rightarrow> (Raised e, fs)
           | Inr new_resources \<Rightarrow>
               (case fs ''index.html'' of
                  None \<Rightarrow> (Returned False, fs)
                | Some html_content \<Rightarrow>
                    (let soup = BeautifulSoup lib html_content in
                     if \<not> find_days_grid lib soup then (Returned False, fs)
                     else
                       (let soup1 = foldl (\<lambda>s r. append_to_days_grid lib s
                                                  (BeautifulSoup lib (create_card_html r)))
                                          soup new_resources;
                            updated_js = update_passwords_js (soup_str lib soup1) new_resources;
                            soup2 = BeautifulSoup lib updated_js;
                            updated_js2 = update_pdf_paths_js (soup_str lib soup2) new_resources;
                            soup3 = BeautifulSoup lib updated_js2
                        in (Returned True, fs(''index.html'' \<mapsto> soup_prettify lib soup3)))))))"

text \<open>
  A stand-in for the HTML library, to run \<open>update_dashboard\<close> on examples: the tree is
  the text itself, the grid is found when the text mentions its class, and a card is
  appended at the end.
\<close>

fun contains :: "string \<Rightarrow> string \<Rightarrow> bool" where
  "contains needle [] = (needle = [])"
| "contains needle (c # cs) = (prefix needle (c # cs) \<or> contains needle cs)"

definition text_library :: "string html_library" where
  "text_library =
     \<lparr> BeautifulSoup = (\<lambda>s. s),
       find_days_grid = contains ''days-grid'',
       append_to_days_grid = (\<lambda>s card. s @ card),
       soup_str = (\<lambda>s. s),
       soup_prettify = (\<lambda>s. s) \<rparr>"

section \<open>Views of the parser used in the statements\<close>

text \<open>
  The acceptance test of \<open>parse_section\<close> reads two fields that do not depend on the
  day counter, so it is a property of the section alone.
\<close>

definition section_accepted :: "string \<Rightarrow> bool" where
  "section_accepted section =
     (line_field ''TITLE:'' ''Untitled'' section \<noteq> [] \<and> extract_full_content section \<noteq> [])"

text \<open>
  The day given to every non-blank section by the loop, in section order, whether or
  not the section is accepted afterwards: the explicit number, or the counter, which
  then moves on. Lemma \<open>parse_claude_response_assign\<close> shows that the parser returns
  the accepted sections with exactly these days.
\<close>

fun assign_days :: "int \<Rightarrow> string list \<Rightarrow> (string \<times> int) list" where
  "assign_days day_counter [] = []"
| "assign_days day_counter (section # sections) =
     (if strip section = [] then assign_days day_counter sections
      else (case explicit_day section of
              Some n \<Rightarrow> (section, n) # assign_days day_counter sections
            | None \<Rightarrow> (section, day_counter) # assign_days (day_counter + 1) sections))"




text \<open>
  For \<open>FULL_CONTENT:\s*(.+)\<close> with \<open>re.DOTALL\<close>: the text after the first occurrence
  of the label, compared without case, and its part before the next delimiter.
\<close>

fun after_label :: "string \<Rightarrow> string \<Rightarrow> string option" where
  "after_label lab [] = (if ci_prefix lab [] then Some [] else None)"
| "after_label lab (c # cs) =
     (if ci_prefix lab (c # cs) then Some (drop (length lab) (c # cs)) else after_label lab cs)"

definition until_delimiter :: "string \<Rightarrow> string" where
  "until_delimiter t = hd (split_delimiter t)"

text \<open>
  For the merger: where the leftmost match of the object pattern starts, and the
  positions at which a text occurs in a document.
\<close>

fun match_start :: "string \<Rightarrow> string \<Rightarrow> nat" where
  "match_start name [] = 0"
| "match_start name (c # cs) =
     (if match_object_here name (c # cs) \<noteq> None then 0 else Suc (match_start name cs))"

definition occurrences :: "string \<Rightarrow> string \<Rightarrow> nat list" where
  "occurrences old s = filter (\<lambda>i. prefix old (drop i s)) [0..<Suc (length s)]"

text \<open>
  A small dashboard and the two resources of the example of the specification, with
  passwords of their own.
\<close>

definition example_dashboard :: string where
  "example_dashboard =
     ''<script>\<newline>const passwords = {\<newline>  day10: '' @ sq @ ''FOCUS'' @ sq @ ''\<newline>};\<newline></script>''"

definition example_resources :: "resource list" where
  "example_resources =
     [\<lparr>day = 11, category = ''Negotiation'', title = ''Ask For More'', hook = [], description = [],
        key_points = [], password = ''ASK'', full_content = ''a''\<rparr>,
      \<lparr>day = 12, category = ''Negotiation'', title = ''Mirror Tactic'', hook = [], description = [],
        key_points = [], password = ''MIRROR'', full_content = ''b''\<rparr>]"




section \<open>The acceptance test of the parser\<close>

text \<open>
  C1. A section is to be appended only when its title is non-empty and its full content
  is not the sentinel. The text \<open>Hello\<close> has no \<open>FULL_CONTENT\<close> label: the record gets
  the sentinel as its content, the test \<open>resource.get('full_content')\<close> sees a non-empty
  string and the record is appended.
\<close>

theorem parse_appends_sentinel_section:
  "parse_claude_response ''Hello'' 11 =
     [\<lparr>day = 11, category = ''Career'', title = ''Untitled'', hook = [], description = [],
       key_points = [], password = ''ACCESS'', full_content = content_sentinel\<rparr>]"
  by code_simp

section \<open>Replacing one character by another\<close>



section \<open>The accent of a card\<close>

lemma length_gradients: "length gradients = 10"
  by (simp add: gradients_def)

lemma infix_here:
  "\<exists>pre post. x1 @ x2 @ x3 @ x4 @ x5 @ x6 @ rest = pre @ (x1 @ x2 @ x3 @ x4 @ x5 @ x6) @ post"
  by (rule exI[of _ "[]"]) simp

lemma infix_skip:
  "\<exists>pre post. ys = pre @ x @ post \<Longrightarrow> \<exists>pre post. a @ ys = pre @ x @ (post::string)"
  by (metis append_assoc)

lemma create_card_html_gradient:
  "\<exists>pre post. create_card_html r =
      pre @ ('' style='' @ dq @ ''background: '' @ card_gradient r @ '';'' @ dq) @ post"
  unfolding create_card_html_def Let_def concat.simps
  by (rule infix_here | rule infix_skip)+

text \<open>
  C9. The list has ten gradients; the accent of a card is the one at index
  \<open>(day - 1) mod 10\<close>, which is always inside the list, and it is what the card's
  \<open>style\<close> attribute carries. Two resources with the same day get the same accent,
  whatever their other fields are.
\<close>

theorem gradient_is_function_of_day:
  "length gradients = 10 \<and>
   nat ((day r - 1) mod 10) < length gradients \<and>
   card_gradient r = gradients ! nat ((day r - 1) mod 10) \<and>
   (day r = day r' \<longrightarrow> card_gradient r = card_gradient r') \<and>
   (\<exists>pre post. create_card_html r =
      pre @ ('' style='' @ dq @ ''background: '' @ card_gradient r @ '';'' @ dq) @ post)"
  by (intro conjI impI create_card_html_gradient) (simp_all add: card_gradient_def length_gradients)

theorem gradient_is_function_of_day_witness:
  "day \<lparr>day = 11, category = ''Career'', title = ''A'', hook = [], description = [],
         key_points = [], password = ''X'', full_content = ''a''\<rparr> =
   day \<lparr>day = 11, category = ''Interview'', title = ''B'', hook = ''h'', description = [],
         key_points = [''p''], password = ''Y'', full_content = ''b''\<rparr> \<and>
   card_gradient \<lparr>day = 11, category = ''Career'', title = ''A'', hook = [], description = [],
         key_points = [], password = ''X'', full_content = ''a''\<rparr> =
   card_gradient \<lparr>day = 11, category = ''Interview'', title = ''B'', hook = ''h'', description = [],
         key_points = [''p''], password = ''Y'', full_content = ''b''\<rparr>"
proof -
  have same_day:
    "day \<lparr>day = 11, category = ''Career'', title = ''A'', hook = [], description = [],
           key_points = [], password = ''X'', full_content = ''a''\<rparr> =
     day \<lparr>day = 11, category = ''Interview'', title = ''B'', hook = ''h'', description = [],
           key_points = [''p''], password = ''Y'', full_content = ''b''\<rparr>"
    by simp
  with gradient_is_function_of_day show ?thesis
    by blast
qed

section \<open>A dashboard without the card container\<close>

text \<open>
  C5. When the dashboard document has no card container, \<open>update_dashboard\<close> leaves
  every file as it was and does not report success; when the resource file is there
  and loads, it returns \<open>False\<close>.
\<close>

theorem missing_grid_leaves_files:
  assumes "fs ''index.html'' = Some html_content"
    and "\<not> find_days_grid lib (BeautifulSoup lib html_content)"
  shows "snd (update_dashboard lib load_resources fs) = fs \<and>
         fst (update_dashboard lib load_resources fs) \<noteq> Returned True \<and>
         (\<forall>json_text new_resources.
            fs ''new_content.json'' = Some json_text \<and> load_resources json_text = Inr new_resources
            \<longrightarrow> update_dashboard lib load_resources fs = (Returned False, fs))"
  using assms
  by (auto simp: update_dashboard_def split: option.splits sum.splits)

theorem missing_grid_leaves_files_witness:
  "update_dashboard text_library (\<lambda>j. Inr [])
     [''new_content.json'' \<mapsto> ''{}'', ''index.html'' \<mapsto> ''<html></html>''] =
   (Returned False, [''new_content.json'' \<mapsto> ''{}'', ''index.html'' \<mapsto> ''<html></html>''])"
proof -
  have doc: "[''new_content.json'' \<mapsto> ''{}'', ''index.html'' \<mapsto> ''<html></html>''] ''index.html'' =
      Some ''<html></html>''"
    by simp
  have no_grid: "\<not> find_days_grid text_library (BeautifulSoup text_library ''<html></html>'')"
    by (simp add: text_library_def delimiter_def)
  have res: "[''new_content.json'' \<mapsto> ''{}'', ''index.html'' \<mapsto> ''<html></html>'']
      ''new_content.json'' = Some ''{}''"
    by simp
  from missing_grid_leaves_files
      [where fs = "[''new_content.json'' \<mapsto> ''{}'', ''index.html'' \<mapsto> ''<html></html>'']"
         and lib = text_library and load_resources = "\<lambda>j. Inr []", OF doc no_grid] res
  show ?thesis
    by blast
qed

section \<open>The loop over the sections\<close>

lemma accepted_build:
  "(title (build_resource d s) \<noteq> [] \<and> full_content (build_resource d s) \<noteq> []) = section_accepted s"
  by (simp add: build_resource_def section_accepted_def)

lemma foldl_parse_section:
  "fst (foldl parse_section (rs, dc) secs) =
     rs @ map (\<lambda>(s, d). build_resource d s)
            (filter (\<lambda>(s, d). section_accepted s) (assign_days dc secs))"
proof (induction secs arbitrary: rs dc)
  case Nil
  then show ?case by simp
next
  case (Cons s secs)
  show ?case
  proof (cases "strip s = []")
    case True
    then show ?thesis using Cons.IH [of rs dc] by (simp add: parse_section_def)
  next
    case False
    show ?thesis
    proof (cases "explicit_day s")
      case None
      then show ?thesis using False Cons.IH [of _ "dc + 1"]
        by (simp add: parse_section_def accepted_build Let_def)
    next
      case (Some n)
      then show ?thesis using False Cons.IH [of _ dc]
        by (simp add: parse_section_def accepted_build Let_def)
    qed
  qed
qed

lemma parse_claude_response_assign:
  "parse_claude_response content start_day =
     map (\<lambda>(s, d). build_resource d s)
       (filter (\<lambda>(s, d). section_accepted s) (assign_days start_day (split_delimiter content)))"
  by (simp add: parse_claude_response_def foldl_parse_section)

lemma fst_assign_days: "map fst (assign_days dc secs) = filter (\<lambda>s. strip s \<noteq> []) secs"
  by (induction secs arbitrary: dc) (auto split: option.splits)

lemma fallback_days:
  "map snd (filter (\<lambda>(s, d). explicit_day s = None) (assign_days dc secs)) =
     map (\<lambda>i. dc + int i)
       [0..<length (filter (\<lambda>s. strip s \<noteq> [] \<and> explicit_day s = None) secs)]"
proof (induction secs arbitrary: dc)
  case Nil
  then show ?case by simp
next
  case (Cons s secs)
  show ?case
  proof (cases "strip s \<noteq> [] \<and> explicit_day s = None")
    case True
    have "map (\<lambda>i. dc + int i) [0..<Suc n] = dc # map (\<lambda>i. dc + 1 + int i) [0..<n]" for n
      by (simp add: upt_rec [of 0] map_Suc_upt [symmetric] del: upt_Suc)
    then show ?thesis using True Cons.IH [of "dc + 1"] by simp
  next
    case False
    then show ?thesis using Cons.IH [of dc] by (auto split: option.splits)
  qed
qed

lemma explicit_days:
  "(s, d) \<in> set (assign_days dc secs) \<Longrightarrow> explicit_day s = Some n \<Longrightarrow> d = n"
  by (induction secs arbitrary: dc) (auto split: if_splits option.splits)

lemma parse_claude_response_days:
  "map day (parse_claude_response content start_day) =
     map snd (filter (\<lambda>(s, d). section_accepted s)
                (assign_days start_day (split_delimiter content)))"
  by (simp add: parse_claude_response_assign build_resource_def comp_def case_prod_unfold)

lemma consecutive_increasing: "sorted_wrt (<) (map (\<lambda>i. (dc::int) + int i) [0..<k])"
  by (simp add: sorted_wrt_map)

text \<open>
  The result of the loop is empty exactly when every section is blank or fails the test
  of the loop (an empty title or an empty full content).
\<close>

lemma parse_empty_iff:
  "parse_claude_response content start_day = [] \<longleftrightarrow>
     (\<forall>s \<in> set (split_delimiter content). strip s = [] \<or> \<not> section_accepted s)"
proof -
  have "parse_claude_response content start_day = [] \<longleftrightarrow>
      filter section_accepted (map fst (assign_days start_day (split_delimiter content))) = []"
    by (simp add: parse_claude_response_assign filter_map comp_def case_prod_unfold)
  also have "\<dots> \<longleftrightarrow> (\<forall>s \<in> set (split_delimiter content). strip s = [] \<or> \<not> section_accepted s)"
    by (auto simp: fst_assign_days filter_empty_conv)
  finally show ?thesis .
qed

lemma parse_empty_text: "parse_claude_response [] start_day = []"
  by (simp add: parse_claude_response_assign strip_def rstrip_def lstrip_def)

text \<open>
  C7. A text with no valid section is to give the empty list. The text \<open>Sorry.\<close> has no
  field at all, yet the parser returns one record for it, made of the defaults: the
  sentinel content passes the test of the loop.
\<close>

theorem parse_text_without_fields:
  "parse_claude_response ''Sorry.'' 11 =
     [\<lparr>day = 11, category = ''Career'', title = ''Untitled'', hook = [], description = [],
       key_points = [], password = ''ACCESS'', full_content = ''Content not found.''\<rparr>]"
  by code_simp

section \<open>Days given by the counter\<close>

text \<open>
  C3, as the claim states it: no day given by the counter collides with another day of
  the same parse. The first section below brings its own day 11, the second has none
  and gets the counter, which starts at 11 too.
\<close>

theorem fallback_day_collides:
  "explicit_day ''DAY: 11\<newline>TITLE: A\<newline>FULL_CONTENT: x'' = Some 11 \<and>
   explicit_day ''TITLE: B\<newline>FULL_CONTENT: y'' = None \<and>
   map day (parse_claude_response
     ''DAY: 11\<newline>TITLE: A\<newline>FULL_CONTENT: x---TITLE: B\<newline>FULL_CONTENT: y'' 11) = [11, 11]"
  by code_simp

text \<open>
  C3, amended. For ASCII text in which no \<open>DAY\<close> number has more than 4300 digits, the
  parser returns the accepted sections, and their \<open>day\<close> fields are the days of
  \<open>assign_days\<close>. The sections without a \<open>DAY\<close> number get \<open>start_day\<close>,
  \<open>start_day + 1\<close>, ... in section order, a strictly increasing run in which every
  counter value is used once; a section with a \<open>DAY\<close> number keeps that number, and
  the counter takes no notice of it.
\<close>

theorem fallback_days_consecutive:
  assumes "ascii_text content"
    and "\<forall>section \<in> set (split_delimiter content). day_digits_bounded section"
  shows "parse_claude_response content start_day =
     map (\<lambda>(s, d). build_resource d s)
       (filter (\<lambda>(s, d). section_accepted s) (assign_days start_day (split_delimiter content))) \<and>
   map snd (filter (\<lambda>(s, d). explicit_day s = None)
              (assign_days start_day (split_delimiter content))) =
     map (\<lambda>i. start_day + int i)
       [0..<length (filter (\<lambda>s. strip s \<noteq> [] \<and> explicit_day s = None)
                      (split_delimiter content))] \<and>
   sorted_wrt (<) (map snd (filter (\<lambda>(s, d). explicit_day s = None)
                              (assign_days start_day (split_delimiter content)))) \<and>
   (\<forall>(s, d) \<in> set (assign_days start_day (split_delimiter content)).
      \<forall>n. explicit_day s = Some n \<longrightarrow> d = n) \<and>
   map day (parse_claude_response content start_day) =
     map snd (filter (\<lambda>(s, d). section_accepted s)
                (assign_days start_day (split_delimiter content)))"
  by (intro conjI parse_claude_response_assign fallback_days parse_claude_response_days)
     (auto simp: fallback_days consecutive_increasing dest: explicit_days)

theorem fallback_days_consecutive_witness:
  "map snd (filter (\<lambda>(s, d). explicit_day s = None)
              (assign_days 11 (split_delimiter ''DAY: 5---x---y''))) = [11, 12] \<and>
   map snd (assign_days 11 (split_delimiter ''DAY: 5---x---y'')) = [5, 11, 12]"
proof -
  have k: "length (filter (\<lambda>s. strip s \<noteq> [] \<and> explicit_day s = None)
                      (split_delimiter ''DAY: 5---x---y'')) = 2"
    by code_simp
  have run: "map (\<lambda>i. 11 + int i) [0..<2] = [11, 12]"
    by code_simp
  have all: "map snd (assign_days 11 (split_delimiter ''DAY: 5---x---y'')) = [5, 11, 12]"
    by code_simp
  have ascii: "ascii_text ''DAY: 5---x---y''"
    by code_simp
  have bounded: "\<forall>section \<in> set (split_delimiter ''DAY: 5---x---y''). day_digits_bounded section"
    by code_simp
  have "map snd (filter (\<lambda>(s, d). explicit_day s = None)
              (assign_days 11 (split_delimiter ''DAY: 5---x---y''))) =
        map (\<lambda>i. 11 + int i)
          [0..<length (filter (\<lambda>s. strip s \<noteq> [] \<and> explicit_day s = None)
                      (split_delimiter ''DAY: 5---x---y''))]"
    by (rule fallback_days_consecutive [OF ascii bounded, of 11, THEN conjunct2, THEN conjunct1])
  then have "map snd (filter (\<lambda>(s, d). explicit_day s = None)
              (assign_days 11 (split_delimiter ''DAY: 5---x---y''))) = [11, 12]"
    by (simp only: k run)
  then show ?thesis using all by (intro conjI)
qed

section \<open>The password of a section\<close>















section \<open>The full content of a section\<close>


lemma full_content_build: "full_content (build_resource d s) = extract_full_content s"
  by (simp add: build_resource_def)

lemma spaces_then_group_any:
  "spaces_then_group any_char t =
     (if t = [] then None
      else Some (if dropWhile isspace t = [] then [last t] else dropWhile isspace t))"
  by (induction t) (auto simp: group_here_def any_char_def)

lemma rstrip_Cons:
  "rstrip (c # cs) = (if rstrip cs = [] \<and> isspace c then [] else c # rstrip cs)"
  by (auto simp: rstrip_def dropWhile_append split: if_splits)

lemma rstrip_Nil [simp]: "rstrip [] = []"
  by (simp add: rstrip_def)

lemma rstrip_empty_iff: "rstrip s = [] \<longleftrightarrow> (\<forall>c \<in> set s. isspace c)"
  by (induction s) (auto simp: rstrip_Cons)

lemma rstrip_lstrip_commute: "rstrip (dropWhile isspace x) = dropWhile isspace (rstrip x)"
  by (induction x) (auto simp: rstrip_Cons)

lemma strip_all_spaces:
  assumes "\<forall>c \<in> set s. isspace c"
  shows "strip s = []"
proof -
  have "dropWhile isspace s = []" using assms by simp
  then show ?thesis unfolding strip_def lstrip_def by (simp only: rstrip_Nil)
qed

lemma strip_lstrip: "strip (dropWhile isspace s) = strip s"
  by (simp add: strip_def lstrip_def)

lemma strip_group_any:
  "spaces_then_group any_char t = Some g \<Longrightarrow> strip g = strip t"
proof -
  assume a: "spaces_then_group any_char t = Some g"
  show ?thesis
  proof (cases "dropWhile isspace t = []")
    case True
    then have all: "\<forall>c \<in> set t. isspace c"
      by (metis dropWhile_eq_Nil_conv)
    from a True have "t \<noteq> []" "g = [last t]"
      by (auto simp: spaces_then_group_any split: if_splits)
    then have "\<forall>c \<in> set g. isspace c" using all by simp
    then show ?thesis using all by (simp add: strip_all_spaces)
  next
    case False
    with a have "g = dropWhile isspace t"
      by (auto simp: spaces_then_group_any split: if_splits)
    then show ?thesis by (simp add: strip_lstrip)
  qed
qed



lemma ci_prefix_length:
  assumes "ci_prefix lab s"
  shows "length lab \<le> length s"
proof -
  from assms have "length (map lower_char (take (length lab) s)) = length (map lower_char lab)"
    unfolding ci_prefix_def by (rule arg_cong)
  then show ?thesis by simp
qed

lemma re_search_field_short:
  "length s < length lab \<Longrightarrow> re_search_field lab cls s = None"
proof (induction s)
  case Nil
  then show ?case using ci_prefix_length [of lab "[]"] by (auto simp: match_field_here_def)
next
  case (Cons c cs)
  then show ?case using ci_prefix_length [of lab "c # cs"] by (auto simp: match_field_here_def)
qed



lemma re_search_field_any:
  "lab \<noteq> [] \<Longrightarrow>
   re_search_field lab any_char s =
     (case after_label lab s of None \<Rightarrow> None | Some rest \<Rightarrow> spaces_then_group any_char rest)"
proof (induction s)
  case Nil
  then show ?case by (simp add: match_field_here_def)
next
  case (Cons c cs)
  show ?case
  proof (cases "ci_prefix lab (c # cs)")
    case False
    then show ?thesis using Cons by (simp add: match_field_here_def)
  next
    case True
    show ?thesis
    proof (cases "drop (length lab) (c # cs) = []")
      case False
      then show ?thesis using True
        by (simp add: match_field_here_def spaces_then_group_any)
    next
      case empty: True
      then have "length cs < length lab" using Cons.prems by simp
      then have "re_search_field lab any_char cs = None" by (rule re_search_field_short)
      then show ?thesis using True empty by (simp add: match_field_here_def)
    qed
  qed
qed




lemma hd_split_lstrip:
  "hd (split_delimiter (dropWhile isspace x)) = dropWhile isspace (hd (split_delimiter x))"
proof (induction x)
  case Nil
  then show ?case by simp
next
  case (Cons c cs)
  show ?case
  proof (cases "isspace c")
    case True
    then have "\<not> prefix delimiter (c # cs)"
      by (auto simp: delimiter_def isspace_def)
    then show ?thesis using True Cons by (simp add: Let_def)
  next
    case False
    then show ?thesis by (simp add: Let_def)
  qed
qed

lemma prefix_rstrip:
  "prefix p x \<Longrightarrow> \<forall>c \<in> set p. \<not> isspace c \<Longrightarrow> prefix p (rstrip x)"
proof (induction p arbitrary: x)
  case Nil
  then show ?case by simp
next
  case (Cons a p)
  then obtain y where x: "x = a # y" "prefix p y"
    by (auto simp: prefix_def)
  then have "prefix p (rstrip y)" using Cons by simp
  then show ?case using x Cons.prems by (simp add: rstrip_Cons)
qed

lemma prefix_of_rstrip: "prefix (rstrip x) x"
  by (induction x) (auto simp: rstrip_Cons)

lemma delimiter_rstrip:
  "prefix delimiter (rstrip x) \<longleftrightarrow> prefix delimiter x"
proof
  assume "prefix delimiter (rstrip x)"
  then show "prefix delimiter x" using prefix_of_rstrip prefix_order.trans by blast
next
  assume "prefix delimiter x"
  then show "prefix delimiter (rstrip x)"
    by (rule prefix_rstrip) (simp add: delimiter_def isspace_def)
qed

lemma set_hd_split: "set (hd (split_delimiter x)) \<subseteq> set x"
  by (induction x) (auto simp: Let_def)

lemma rstrip_hd_split_rstrip:
  "rstrip (hd (split_delimiter (rstrip x))) = rstrip (hd (split_delimiter x))"
proof (induction x)
  case Nil
  then show ?case by simp
next
  case (Cons c cs)
  show ?case
  proof (cases "rstrip cs = [] \<and> isspace c")
    case True
    then have "\<forall>a \<in> set (c # cs). isspace a" by (simp add: rstrip_empty_iff)
    then have "\<forall>a \<in> set (hd (split_delimiter (c # cs))). isspace a"
      using set_hd_split by blast
    then have "rstrip (hd (split_delimiter (c # cs))) = []" by (simp add: rstrip_empty_iff)
    then show ?thesis using True by (simp add: rstrip_Cons)
  next
    case False
    then have r: "rstrip (c # cs) = c # rstrip cs" by (simp add: rstrip_Cons)
    have p: "prefix delimiter (c # rstrip cs) \<longleftrightarrow> prefix delimiter (c # cs)"
      using delimiter_rstrip [of "c # cs"] r by simp
    show ?thesis
    proof (cases "prefix delimiter (c # cs)")
      case True
      then show ?thesis using p r by simp
    next
      case nd: False
      then show ?thesis using p r Cons.IH by (simp add: Let_def rstrip_Cons)
    qed
  qed
qed

lemma strip_alt: "strip x = dropWhile isspace (rstrip x)"
  by (simp add: strip_def lstrip_def rstrip_lstrip_commute)

lemma strip_until_delimiter_strip:
  "strip (hd (split_delimiter (strip x))) = strip (hd (split_delimiter x))"
proof -
  have "strip (hd (split_delimiter (strip x))) =
      dropWhile isspace (rstrip (hd (split_delimiter (rstrip (dropWhile isspace x)))))"
    by (simp only: strip_alt [of "hd (split_delimiter (strip x))"]) (simp only: strip_def lstrip_def)
  also have "\<dots> = dropWhile isspace (rstrip (hd (split_delimiter (dropWhile isspace x))))"
    by (simp add: rstrip_hd_split_rstrip)
  also have "\<dots> = dropWhile isspace (rstrip (dropWhile isspace (hd (split_delimiter x))))"
    by (simp add: hd_split_lstrip)
  also have "\<dots> = strip (hd (split_delimiter x))"
    by (simp add: rstrip_lstrip_commute strip_alt)
  finally show ?thesis .
qed

text \<open>
  C6, as the claim states it: the full content is all the text after the label. In the
  first section below the text after the label is \<open>\<newline>a\<newline>b \<close>, and the full content is
  \<open>a\<newline>b\<close>: the white space around it is removed. In the second nothing follows the
  label, and the full content is the sentinel, not the empty text.
\<close>

theorem full_content_is_stripped:
  "after_label ''FULL_CONTENT:'' ''TITLE: A\<newline>FULL_CONTENT:\<newline>a\<newline>b '' = Some ''\<newline>a\<newline>b '' \<and>
   full_content (build_resource 11 ''TITLE: A\<newline>FULL_CONTENT:\<newline>a\<newline>b '') = ''a\<newline>b'' \<and>
   after_label ''FULL_CONTENT:'' ''TITLE: A\<newline>FULL_CONTENT:'' = Some [] \<and>
   full_content (build_resource 11 ''TITLE: A\<newline>FULL_CONTENT:'') = ''Content not found.''"
  unfolding full_content_build by code_simp

text \<open>
  C6, amended, for an ASCII section. When the section has a \<open>FULL_CONTENT:\<close> label and some text follows its
  first occurrence, the full content is that text up to the next delimiter or the end
  of the section, whichever comes first, over all its lines, with the white space at
  both ends removed. When nothing follows the label, or there is no label, the full
  content is the sentinel.
\<close>

theorem full_content_after_label:
  assumes "ascii_text section"
  shows "full_content (build_resource d section) =
     (case after_label ''FULL_CONTENT:'' section of
        None \<Rightarrow> content_sentinel
      | Some rest \<Rightarrow> if rest = [] then content_sentinel else strip (until_delimiter rest))"
proof (cases "after_label ''FULL_CONTENT:'' section")
  case None
  then show ?thesis
    by (simp add: build_resource_def extract_full_content_def re_search_field_any)
next
  case (Some rest)
  show ?thesis
  proof (cases "rest = []")
    case True
    then show ?thesis using Some
      by (simp add: build_resource_def extract_full_content_def re_search_field_any)
  next
    case False
    then obtain g where g: "spaces_then_group any_char rest = Some g"
      by (simp add: spaces_then_group_any)
    then have "strip g = strip rest" by (rule strip_group_any)
    then show ?thesis using Some False g
      by (simp add: build_resource_def extract_full_content_def re_search_field_any
          until_delimiter_def strip_until_delimiter_strip)
  qed
qed


theorem full_content_after_label_witness:
  "full_content (build_resource 11 ''TITLE: A\<newline>Full_Content: a\<newline>\<newline>b\<newline>'') = ''a\<newline>\<newline>b''"
proof -
  have rest: "after_label ''FULL_CONTENT:'' ''TITLE: A\<newline>Full_Content: a\<newline>\<newline>b\<newline>'' = Some '' a\<newline>\<newline>b\<newline>''"
    by code_simp
  have cut: "strip (until_delimiter '' a\<newline>\<newline>b\<newline>'') = ''a\<newline>\<newline>b''"
    by code_simp
  have ne: "'' a\<newline>\<newline>b\<newline>'' \<noteq> []"
    by simp
  have ascii: "ascii_text ''TITLE: A\<newline>Full_Content: a\<newline>\<newline>b\<newline>''"
    by code_simp
  from full_content_after_label [OF ascii, of 11]
  show ?thesis by (simp only: rest cut option.case ne if_False)
qed

section \<open>The tables of the dashboard\<close>

lemma replace_scan_skip: "replace_scan old new k s = replace_scan old new 0 (drop k s)"
proof (induction s arbitrary: k)
  case Nil
  then show ?case by simp
next
  case (Cons c cs)
  then show ?case by (cases k) simp_all
qed

lemma replace_scan_at:
  assumes "old \<noteq> []"
  shows "replace_scan old new 0 (old @ rest) = new @ replace_scan old new 0 rest"
proof -
  from assms obtain c cs where old: "old = c # cs" by (cases old) auto
  have "replace_scan old new 0 (old @ rest) = new @ replace_scan old new (length cs) (cs @ rest)"
    by (simp add: old)
  also have "\<dots> = new @ replace_scan old new 0 rest"
    by (subst replace_scan_skip) simp
  finally show ?thesis .
qed

lemma replace_scan_no_occurrence:
  "(\<And>i. i < length pre \<Longrightarrow> \<not> prefix old (drop i (pre @ rest))) \<Longrightarrow>
   replace_scan old new 0 (pre @ rest) = pre @ replace_scan old new 0 rest"
proof (induction pre)
  case Nil
  then show ?case by simp
next
  case (Cons c p)
  have 0: "\<not> prefix old ((c # p) @ rest)" using Cons.prems [of 0] by simp
  have "\<not> prefix old (drop i (p @ rest))" if "i < length p" for i
    using Cons.prems [of "Suc i"] that by simp
  then have "replace_scan old new 0 (p @ rest) = p @ replace_scan old new 0 rest"
    by (rule Cons.IH)
  then show ?case using 0 by simp
qed








lemma prefix_rstrip_char: "prefix (rstrip_char x s) s"
proof -
  have "s = rev (dropWhile (\<lambda>c. c = x) (rev s)) @ rev (takeWhile (\<lambda>c. c = x) (rev s))"
    by (metis rev_append rev_rev_ident takeWhile_dropWhile_id)
  then show ?thesis unfolding rstrip_char_def by (metis prefixI)
qed

lemma prefix_kept: "prefix (rstrip_char x (rstrip s)) s"
  using prefix_rstrip_char prefix_of_rstrip prefix_order.trans by blast














text \<open>
  C10, as the claim states it: only the matched literal changes. In the document below
  the pattern matches at position 22, the second literal (the first is not followed by
  a semicolon). \<open>str.replace\<close> rewrites every occurrence of the matched text, so the
  first 22 characters of the document, which are outside the match, change too.
\<close>

theorem update_rewrites_other_occurrence:
  "match_start ''passwords'' ''const passwords = {a} const passwords = {a};'' = 22 \<and>
   re_search_object ''passwords'' ''const passwords = {a} const passwords = {a};'' = Some ''a'' \<and>
   take 22 ''const passwords = {a} const passwords = {a};'' = ''const passwords = {a} '' \<and>
   update_passwords_js ''const passwords = {a} const passwords = {a};'' [] =
     ''const passwords = {\<newline>a,\<newline>\<newline>        } const passwords = {\<newline>a,\<newline>\<newline>        };'' \<and>
   take 22 (update_passwords_js ''const passwords = {a} const passwords = {a};'' []) =
     ''const passwords = {\<newline>a,''"
  by code_simp

lemma occurrences_single:
  assumes "occurrences old s = [i]"
  shows "i \<le> length s" and "prefix old (drop i s)"
    and "\<And>j. j \<le> length s \<Longrightarrow> prefix old (drop j s) \<Longrightarrow> j = i"
proof -
  have "set (occurrences old s) = {j. j \<le> length s \<and> prefix old (drop j s)}"
    by (auto simp: occurrences_def less_Suc_eq_le simp del: upt_Suc)
  with assms have eq: "{j. j \<le> length s \<and> prefix old (drop j s)} = {i}" by simp
  then have "i \<in> {j. j \<le> length s \<and> prefix old (drop j s)}" by blast
  then show "i \<le> length s" and "prefix old (drop i s)" by simp_all
  show "j = i" if "j \<le> length s" "prefix old (drop j s)" for j
    using eq that by blast
qed

lemma replace_unique:
  assumes ne: "old \<noteq> []" and occ: "occurrences old s = [i]"
  shows "replace old new s = take i s @ new @ drop (i + length old) s"
proof -
  note o = occurrences_single [OF occ]
  let ?tail = "drop (i + length old) s"
  from o(2) have d: "drop i s = old @ ?tail"
    by (auto simp: prefix_def add.commute) (metis append_eq_conv_conj drop_drop add.commute)
  have len: "i + length old \<le> length s"
  proof -
    have "length (drop i s) = length old + length ?tail" by (subst d) simp
    then show ?thesis using o(1) by simp
  qed
  have before: "\<not> prefix old (drop j (take i s @ drop i s))" if "j < length (take i s)" for j
  proof
    assume "prefix old (drop j (take i s @ drop i s))"
    then have "prefix old (drop j s)" by simp
    moreover from that have "j < i" "j \<le> length s" by simp_all
    ultimately show False using o(3) [of j] by simp
  qed
  have after: "\<not> prefix old (drop j (?tail @ []))" if "j < length ?tail" for j
  proof
    assume "prefix old (drop j (?tail @ []))"
    then have "prefix old (drop (i + length old + j) s)" by (simp add: add.commute)
    moreover from that have "i + length old + j \<le> length s" by simp
    ultimately have "i + length old + j = i" by (rule o(3) [rotated])
    with ne show False by simp
  qed
  have "replace old new s = replace_scan old new 0 (take i s @ drop i s)"
    using ne by (simp add: replace_def)
  also have "\<dots> = take i s @ replace_scan old new 0 (drop i s)"
    using before by (rule replace_scan_no_occurrence)
  also have "replace_scan old new 0 (drop i s) = new @ replace_scan old new 0 ?tail"
    unfolding d using ne by (rule replace_scan_at)
  also have "replace_scan old new 0 ?tail = replace_scan old new 0 (?tail @ [])" by simp
  also have "\<dots> = ?tail @ replace_scan old new 0 []"
    using after by (rule replace_scan_no_occurrence)
  finally show ?thesis by simp
qed

lemma old_literal_nonempty: "old_literal name current \<noteq> []"
  by (simp add: old_literal_def)

text \<open>
  C10, amended. When the literal is not found, each of the two functions returns the
  document as it is. When it is found and its text \<open>const NAME = {BODY}\<close> occurs only
  once in the document, at position \<open>i\<close>, the result is the document with that one
  occurrence replaced by the new literal: every character before and after it is
  unchanged.
\<close>

theorem updates_change_only_the_literal:
  "(re_search_object ''passwords'' html = None \<longrightarrow> update_passwords_js html rs = html) \<and>
   (re_search_object ''pdfFiles'' html = None \<longrightarrow> update_pdf_paths_js html rs = html) \<and>
   (\<forall>current i.
      re_search_object ''passwords'' html = Some current \<and>
      occurrences (old_literal ''passwords'' current) html = [i] \<longrightarrow>
      update_passwords_js html rs =
        take i html @
        new_literal ''passwords'' (updated_table current (map password_entry rs)) @
        drop (i + length (old_literal ''passwords'' current)) html) \<and>
   (\<forall>current i.
      re_search_object ''pdfFiles'' html = Some current \<and>
      occurrences (old_literal ''pdfFiles'' current) html = [i] \<longrightarrow>
      update_pdf_paths_js html rs =
        take i html @
        new_literal ''pdfFiles'' (updated_table current (map pdf_entry rs)) @
        drop (i + length (old_literal ''pdfFiles'' current)) html)"
  by (intro conjI allI impI)
     (simp_all add: update_passwords_js_def update_pdf_paths_js_def Let_def
        replace_unique [OF old_literal_nonempty])

theorem updates_change_only_the_literal_witness:
  "update_passwords_js example_dashboard example_resources =
     ''<script>\<newline>'' @
     new_literal ''passwords''
       (''\<newline>  day10: '' @ sq @ ''FOCUS'' @ sq @ '',\<newline>'' @
        ''            day11: '' @ sq @ ''ASK'' @ sq @ '',\<newline>'' @
        ''            day12: '' @ sq @ ''MIRROR'' @ sq) @
     '';\<newline></script>''"
proof -
  have found: "re_search_object ''passwords'' example_dashboard =
      Some (''\<newline>  day10: '' @ sq @ ''FOCUS'' @ sq @ ''\<newline>'')"
    by code_simp
  have once: "occurrences (old_literal ''passwords'' (''\<newline>  day10: '' @ sq @ ''FOCUS'' @ sq @ ''\<newline>''))
      example_dashboard = [9]"
    by code_simp
  from updates_change_only_the_literal [of example_dashboard example_resources] found once
  have "update_passwords_js example_dashboard example_resources =
        take 9 example_dashboard @
        new_literal ''passwords'' (updated_table (''\<newline>  day10: '' @ sq @ ''FOCUS'' @ sq @ ''\<newline>'')
           (map password_entry example_resources)) @
        drop (9 + length (old_literal ''passwords'' (''\<newline>  day10: '' @ sq @ ''FOCUS'' @ sq @ ''\<newline>'')))
           example_dashboard"
    by blast
  also have "\<dots> = ''<script>\<newline>'' @
     new_literal ''passwords''
       (''\<newline>  day10: '' @ sq @ ''FOCUS'' @ sq @ '',\<newline>'' @
        ''            day11: '' @ sq @ ''ASK'' @ sq @ '',\<newline>'' @
        ''            day12: '' @ sq @ ''MIRROR'' @ sq) @
     '';\<newline></script>''"
    by code_simp
  finally show ?thesis .
qed

section \<open>The file name in the table of the PDFs\<close>





end
